theory Spec2Isabelle
  imports Main "HOL-Library.Sublist" "HOL-Library.Multiset" "HOL-Library.AList"
begin

section \<open>Strings and formatting\<close>

text \<open>
  Go strings are byte sequences; they are modelled as \<open>string\<close> (a list of 8-bit
  characters). The two control characters the program prints are named here.
\<close>

abbreviation nl :: string where "nl \<equiv> [CHR 0x0A]"
abbreviation tab :: string where "tab \<equiv> [CHR 0x09]"

text \<open>The verb \<open>%d\<close> of package fmt: decimal digits, with a sign for negative numbers.\<close>

definition digit :: "nat \<Rightarrow> char" where
  "digit n = ''0123456789'' ! n"

function digits :: "nat \<Rightarrow> string" where
  "digits n = (if n < 10 then [digit n] else digits (n div 10) @ [digit (n mod 10)])"
  by pat_completeness auto
termination
  by (relation "measure id") auto

declare digits.simps [simp del]

definition fmt_d :: "int \<Rightarrow> string" where
  "fmt_d i = (if i < 0 then ''-'' @ digits (nat (- i)) else digits (nat i))"

section \<open>strings.TrimSpace\<close>

text \<open>
  \<open>strings.TrimSpace\<close> removes leading and trailing white space as defined by Unicode
  (\<open>unicode.IsSpace\<close>): the six ASCII characters tab, line feed, vertical tab, form feed,
  carriage return and space, then U+0085, U+00A0, U+1680, U+2000 to U+200A, U+2028,
  U+2029, U+202F, U+205F and U+3000. On a byte string a white-space rune is present
  exactly where its UTF-8 encoding stands; any other byte sequence (also an invalid one,
  which decodes to U+FFFD) is not white space.
\<close>

definition space_encodings :: "string list" where
  "space_encodings =
    [[CHR 0x09], [CHR 0x0A], [CHR 0x0B], [CHR 0x0C], [CHR 0x0D], [CHR 0x20],
     [CHR 0xC2, CHR 0x85], [CHR 0xC2, CHR 0xA0],
     [CHR 0xE1, CHR 0x9A, CHR 0x80],
     [CHR 0xE2, CHR 0x80, CHR 0x80], [CHR 0xE2, CHR 0x80, CHR 0x81],
     [CHR 0xE2, CHR 0x80, CHR 0x82], [CHR 0xE2, CHR 0x80, CHR 0x83],
     [CHR 0xE2, CHR 0x80, CHR 0x84], [CHR 0xE2, CHR 0x80, CHR 0x85],
     [CHR 0xE2, CHR 0x80, CHR 0x86], [CHR 0xE2, CHR 0x80, CHR 0x87],
     [CHR 0xE2, CHR 0x80, CHR 0x88], [CHR 0xE2, CHR 0x80, CHR 0x89],
     [CHR 0xE2, CHR 0x80, CHR 0x8A],
     [CHR 0xE2, CHR 0x80, CHR 0xA8], [CHR 0xE2, CHR 0x80, CHR 0xA9],
     [CHR 0xE2, CHR 0x80, CHR 0xAF],
     [CHR 0xE2, CHR 0x81, CHR 0x9F],
     [CHR 0xE3, CHR 0x80, CHR 0x80]]"

text \<open>The white-space rune a string starts with (its encoding), if any.\<close>

definition leading_space :: "string \<Rightarrow> string option" where
  "leading_space s = find (\<lambda>e. prefix e s) space_encodings"

text \<open>The white-space rune a string ends with, if any.\<close>

definition trailing_space :: "string \<Rightarrow> string option" where
  "trailing_space s = find (\<lambda>e. suffix e s) space_encodings"

lemma leading_space_length:
  "leading_space s = Some e \<Longrightarrow> 0 < length e \<and> length e \<le> length s"
  unfolding leading_space_def
  by (auto simp: find_Some_iff space_encodings_def prefix_length_le nth_Cons'
      split: if_splits)

lemma trailing_space_length:
  "trailing_space s = Some e \<Longrightarrow> 0 < length e \<and> length e \<le> length s"
  unfolding trailing_space_def
  by (auto simp: find_Some_iff space_encodings_def suffix_length_le nth_Cons'
      split: if_splits)

function trimLeft :: "string \<Rightarrow> string" where
  "trimLeft s =
     (case leading_space s of
        None \<Rightarrow> s
      | Some e \<Rightarrow> trimLeft (drop (length e) s))"
  by pat_completeness auto
termination
proof (relation "measure length")
  show "wf (measure length)" by simp
next
  fix s e assume "leading_space s = Some e"
  from leading_space_length [OF this]
  show "(drop (length e) s, s) \<in> measure length" by (cases e) auto
qed

function trimRight :: "string \<Rightarrow> string" where
  "trimRight s =
     (case trailing_space s of
        None \<Rightarrow> s
      | Some e \<Rightarrow> trimRight (take (length s - length e) s))"
  by pat_completeness auto
termination
proof (relation "measure length")
  show "wf (measure length)" by simp
next
  fix s e assume "trailing_space s = Some e"
  from trailing_space_length [OF this]
  show "(take (length s - length e) s, s) \<in> measure length" by (cases e) auto
qed

declare trimLeft.simps [simp del] trimRight.simps [simp del]

definition TrimSpace :: "string \<Rightarrow> string" where
  "TrimSpace s = trimRight (trimLeft s)"

section \<open>bufio.Scanner with the default split function\<close>

text \<open>
  \<open>bufio.NewScanner\<close> splits its input with \<open>bufio.ScanLines\<close>: a token is the text up
  to the next line feed, without the line feed and without one trailing carriage return;
  the last line may lack its line feed; at the end of the input there is no token.
  The scanner's buffer grows to \<open>MaxScanTokenSize\<close> bytes and no further: when that many
  bytes hold no line feed, \<open>Scan\<close> gives up (\<open>ErrTooLong\<close>) and returns false, as it does
  at the end of the input. \<open>Scan\<close> below returns the token and the input left after it,
  and \<open>None\<close> where the library returns false.
\<close>

definition MaxScanTokenSize :: nat where
  "MaxScanTokenSize = 64 * 1024"

definition dropCR :: "string \<Rightarrow> string" where
  "dropCR data = (if data \<noteq> [] \<and> last data = CHR 0x0D then butlast data else data)"

definition Scan :: "string \<Rightarrow> (string \<times> string) option" where
  "Scan input =
     (if input = [] then None
      else let line = takeWhile (\<lambda>c. c \<noteq> CHR 0x0A) input in
        if MaxScanTokenSize \<le> length line then None
        else Some (dropCR line, drop (Suc (length line)) input))"

lemma Scan_shorter: "Scan input = Some (line, rest) \<Longrightarrow> length rest < length input"
  by (cases input) (auto simp: Scan_def Let_def split: if_splits)

section \<open>The environment of a run\<close>

text \<open>
  What the program reads from outside is a parameter of the model: the working directory,
  the path functions of \<open>path/filepath\<close>, the glob matcher, \<open>os.Stat\<close> (of which the code
  uses only \<open>IsDir\<close>), \<open>os.Open\<close> together with the bytes then read, and the elapsed time
  as printed. The file system is taken not to change during a run.

  Two things the Go runtime leaves open are parameters as well: the order in which the
  goroutines of one pattern reach their atomic addition, and the order in which a
  \<open>range\<close> loop visits the entries of a map. Both are given as lists of picks, see
  \<open>pick_order\<close>.
\<close>

datatype error = Err (msg: string)

record world =
  Getwd :: "error + string"
  Clean :: "string \<Rightarrow> string"
  Join :: "string \<Rightarrow> string \<Rightarrow> string"
  Glob :: "string \<Rightarrow> string \<Rightarrow> error + string list"
  Stat :: "string \<Rightarrow> error + bool"
  Open :: "string \<Rightarrow> error + string"
  elapsed :: string
  goroutines :: "nat \<Rightarrow> nat list"
  rangeSum :: "nat list"
  rangePrint :: "nat list"

text \<open>
  An order chosen by picks: each pick selects, modulo the number of elements still
  waiting, the one that comes next; without picks the elements come in their given order.
  Every list of picks yields a permutation, and every permutation is reached by some picks.
\<close>

function pick_order :: "nat list \<Rightarrow> 'a list \<Rightarrow> 'a list" where
  "pick_order ks xs =
     (if xs = [] then []
      else let i = (case ks of [] \<Rightarrow> 0 | k # _ \<Rightarrow> k mod length xs) in
        xs ! i # pick_order (tl ks) (take i xs @ drop (Suc i) xs))"
  by pat_completeness auto
termination
proof (relation "measure (\<lambda>(ks, xs). length xs)")
  show "wf (measure (\<lambda>(ks, xs). length xs))" by simp
next
  fix ks :: "nat list" and xs :: "'a list" and i
  assume xs: "xs \<noteq> []" and i: "i = (case ks of [] \<Rightarrow> 0 | k # _ \<Rightarrow> k mod length xs)"
  from xs have "0 < length xs" by simp
  then have "i < length xs" unfolding i by (cases ks) simp_all
  then show "((tl ks, take i xs @ drop (Suc i) xs), ks, xs) \<in> measure (\<lambda>(ks, xs). length xs)"
    by simp
qed

declare pick_order.simps [simp del]

section \<open>countLines\<close>

function scan_loop :: "string \<Rightarrow> int \<Rightarrow> int" where
  "scan_loop input cnt =
     (case Scan input of
        None \<Rightarrow> cnt
      | Some (line, rest) \<Rightarrow>
          scan_loop rest (if TrimSpace line \<noteq> [] then cnt + 1 else cnt))"
  by pat_completeness auto
termination
  by (relation "measure (\<lambda>(input, cnt). length input)") (auto dest: Scan_shorter)

declare scan_loop.simps [simp del]

definition countLines :: "world \<Rightarrow> string \<Rightarrow> int" where
  "countLines w filePath =
     (case Open w filePath of
        Inl err \<Rightarrow> 0
      | Inr content \<Rightarrow> scan_loop content 0)"

text \<open>
  The lines of a text in the words of the specification: the runs between line feeds, a
  last run without line feed included when it is not empty; and the number of them that
  are not empty after trimming white space.
\<close>

fun text_lines :: "string \<Rightarrow> string list" where
  "text_lines [] = []"
| "text_lines (c # cs) =
     (if c = CHR 0x0A then [] # text_lines cs
      else (case text_lines cs of
              [] \<Rightarrow> [[c]]
            | l # ls \<Rightarrow> (c # l) # ls))"

definition nonblank_lines :: "string \<Rightarrow> nat" where
  "nonblank_lines content = length (filter (\<lambda>l. TrimSpace l \<noteq> []) (text_lines content))"

section \<open>countLocs\<close>

text \<open>
  The inner loop of \<open>countLocs\<close> starts one goroutine for every match whose \<open>os.Stat\<close>
  succeeds and is not a directory; \<open>spawned\<close> lists their paths in the order of the
  matches. Each goroutine adds \<open>countLines\<close> of its file to the pattern's total \<open>tot\<close> with one atomic
  addition, so a run of the goroutines is the sequence of these additions in the order the
  scheduler lets them happen. \<open>wg.Wait\<close> returns when all of them are done.

  The counters are Go's \<open>int64\<close> and \<open>int\<close>. A count never exceeds the number of bytes
  read, so they are modelled by unbounded integers.
\<close>

fun spawned :: "world \<Rightarrow> string \<Rightarrow> string list \<Rightarrow> string list" where
  "spawned w root [] = []"
| "spawned w root (file # matches) =
     (let fullPath = Join w root file in
      case Stat w fullPath of
        Inl err \<Rightarrow> spawned w root matches
      | Inr isDir \<Rightarrow>
          if isDir then spawned w root matches
          else fullPath # spawned w root matches)"

definition atomic_adds :: "world \<Rightarrow> string list \<Rightarrow> int \<Rightarrow> int" where
  "atomic_adds w finished tot =
     fold (\<lambda>filePath tot. tot + countLines w filePath) finished tot"

text \<open>
  The map \<open>results\<close> is an association list with distinct keys, in the order the keys were
  first stored; storing under a key that is present overwrites its value. The lines written
  to standard error are collected beside it.
\<close>

record counting =
  results :: "(string \<times> int) list"
  errors :: "string list"

fun countLocs_loop :: "world \<Rightarrow> string \<Rightarrow> nat \<Rightarrow> string list \<Rightarrow> counting \<Rightarrow> counting" where
  "countLocs_loop w root i [] st = st"
| "countLocs_loop w root i (pattern # patterns) st =
     (case Glob w root pattern of
        Inl err \<Rightarrow>
          countLocs_loop w root (Suc i) patterns
            (st\<lparr>errors := errors st @
               [''Error processing pattern '' @ pattern @ '': '' @ msg err @ nl]\<rparr>)
      | Inr matches \<Rightarrow>
          (let tot = atomic_adds w (pick_order (goroutines w i) (spawned w root matches)) 0
           in countLocs_loop w root (Suc i) patterns
                (st\<lparr>results := AList.update pattern tot (results st)\<rparr>)))"

definition countLocs :: "world \<Rightarrow> string \<Rightarrow> string list \<Rightarrow> counting" where
  "countLocs w root patterns = countLocs_loop w root 0 patterns \<lparr>results = [], errors = []\<rparr>"

section \<open>processInput and main\<close>

text \<open>
  \<open>filepath.Abs\<close> on Unix: an absolute path is cleaned and returned; any other path is
  joined to the working directory, and the call fails only when the working directory
  cannot be determined. It does not look at the file system for the path itself.
\<close>

definition IsAbs :: "string \<Rightarrow> bool" where
  "IsAbs path \<longleftrightarrow> prefix ''/'' path"

definition Abs :: "world \<Rightarrow> string \<Rightarrow> error + string" where
  "Abs w path =
     (if IsAbs path then Inr (Clean w path)
      else (case Getwd w of
              Inl err \<Rightarrow> Inl err
            | Inr wd \<Rightarrow> Inr (Join w wd path)))"

text \<open>
  What a run leaves behind: the writes to standard output and to standard error, one list
  element for each call of a printing function, and the exit status.
\<close>

record outcome =
  stdout :: "string list"
  stderr :: "string list"
  exit_code :: nat

definition breakdown_header :: string where
  "breakdown_header = ''Breakdown of Lines of Code by Glob:'' @ nl"

definition breakdown_line :: "string \<times> int \<Rightarrow> string" where
  "breakdown_line e = ''-  '' @ fst e @ '': '' @ fmt_d (snd e) @ nl"

definition total_line :: "int \<Rightarrow> string \<Rightarrow> string" where
  "total_line totalLines el =
     ''Total:'' @ tab @ fmt_d totalLines @ '' lines of code'' @ nl @ nl @
     ''Elapsed time: '' @ el @ nl"

definition sum_results :: "(string \<times> int) list \<Rightarrow> int" where
  "sum_results visited = fold (\<lambda>e totalLines. totalLines + snd e) visited 0"

definition processInput :: "world \<Rightarrow> string \<Rightarrow> string list \<Rightarrow> outcome" where
  "processInput w dir patterns =
     (case Abs w dir of
        Inl err \<Rightarrow>
          \<lparr>stdout = [],
           stderr = [''Failed to resolve directory: '' @ msg err @ nl],
           exit_code = 1\<rparr>
      | Inr absDir \<Rightarrow>
          (let r = countLocs w absDir patterns;
               totalLines = sum_results (pick_order (rangeSum w) (results r));
               breakdown =
                 (if length patterns > 1
                  then [breakdown_header, nl] @
                       map breakdown_line (pick_order (rangePrint w) (results r)) @ [nl]
                  else [])
           in \<lparr>stdout = breakdown @ [total_line totalLines (elapsed w)],
               stderr = errors r,
               exit_code = 0\<rparr>))"

definition version :: string where
  "version = ''0.1.0''"

definition helpMessage :: string where
  "helpMessage =
     ''Usage: count_locs <directory> <glob-patterns>...'' @ nl @
     nl @
     ''Options:'' @ nl @
     ''  -h, --help       Show this help message'' @ nl @
     ''  -v, --version    Show version information'' @ nl @
     nl @
     ''Examples:'' @ nl @
     ''  count_locs ./src '' @ [CHR 0x22] @ ''**/*.rs'' @ [CHR 0x22] @ '' '' @
        [CHR 0x22] @ ''**/*.ts'' @ [CHR 0x22] @ nl @
     ''  count_locs ./ '' @ [CHR 0x22] @ ''**/*.css'' @ [CHR 0x22] @ nl"

definition usage_error :: outcome where
  "usage_error =
     \<lparr>stdout = [],
      stderr = [''Usage: count_locs <directory> <glob-patterns>...'' @ nl],
      exit_code = 1\<rparr>"

definition printHelp :: outcome where
  "printHelp = \<lparr>stdout = [helpMessage], stderr = [], exit_code = 0\<rparr>"

definition printVersion :: outcome where
  "printVersion =
     \<lparr>stdout = [''count_locs version '' @ version @ nl], stderr = [], exit_code = 0\<rparr>"

text \<open>\<open>args\<close> is \<open>os.Args\<close>: the program name, then the arguments.\<close>

definition main :: "world \<Rightarrow> string list \<Rightarrow> outcome" where
  "main w args =
     (if length args < 2 then usage_error
      else if length args = 2 then
        (if args ! 1 = ''-h'' \<or> args ! 1 = ''--help'' then printHelp
         else if args ! 1 = ''-v'' \<or> args ! 1 = ''--version'' then printVersion
         else usage_error)
      else processInput w (args ! 1) (drop 2 args))"

section \<open>The terms of the specification\<close>

text \<open>
  What the specification calls a regular file is, in the code, a match for which
  \<open>os.Stat\<close> succeeds and does not report a directory; its path is the root joined with
  the match. The total of a pattern is the sum of \<open>countLines\<close> over these paths, and a
  pattern fails when the matcher returns an error for it.
\<close>

definition regular_file :: "world \<Rightarrow> string \<Rightarrow> bool" where
  "regular_file w path = (case Stat w path of Inl err \<Rightarrow> False | Inr isDir \<Rightarrow> \<not> isDir)"

definition glob_fails :: "world \<Rightarrow> string \<Rightarrow> string \<Rightarrow> bool" where
  "glob_fails w root pattern = (case Glob w root pattern of Inl err \<Rightarrow> True | Inr matches \<Rightarrow> False)"

definition regular_paths :: "world \<Rightarrow> string \<Rightarrow> string \<Rightarrow> string list" where
  "regular_paths w root pattern =
     (case Glob w root pattern of
        Inl err \<Rightarrow> []
      | Inr matches \<Rightarrow> filter (regular_file w) (map (Join w root) matches))"

definition pattern_total :: "world \<Rightarrow> string \<Rightarrow> string \<Rightarrow> int" where
  "pattern_total w root pattern = sum_list (map (countLines w) (regular_paths w root pattern))"

section \<open>Example worlds\<close>

text \<open>
  A small world after the repository's tests: under \<open>/tmp/t\<close> there are \<open>file1.txt\<close>
  (two lines of text and an empty line), \<open>file3.log\<close> (one line) and a directory \<open>subdir\<close>
  with \<open>file2.txt\<close> (three lines, one ending in a carriage return, the last without line
  feed). The matcher also reports \<open>gone.txt\<close>, which no longer exists, and rejects the
  pattern \<open>[\<close>. Nothing else exists; in particular there is no directory
  \<open>/nonexistent\<close>, for which the matcher finds nothing.
\<close>

definition example_world :: world where
  "example_world =
     \<lparr>Getwd = Inr ''/home/u'',
      Clean = (\<lambda>p. p),
      Join = (\<lambda>a b. a @ ''/'' @ b),
      Glob = (\<lambda>root pattern.
        if pattern = ''['' then Inl (Err ''syntax error in pattern'')
        else if root = ''/tmp/t'' \<and> pattern = ''**/*.txt''
          then Inr [''file1.txt'', ''subdir/file2.txt'', ''gone.txt'']
        else if root = ''/tmp/t'' \<and> pattern = ''**''
          then Inr [''file1.txt'', ''file3.log'', ''subdir'', ''subdir/file2.txt'']
        else Inr []),
      Stat = (\<lambda>path.
        if path = ''/tmp/t'' \<or> path = ''/tmp/t/subdir'' then Inr True
        else if path = ''/tmp/t/file1.txt'' \<or> path = ''/tmp/t/subdir/file2.txt''
          \<or> path = ''/tmp/t/file3.log'' then Inr False
        else Inl (Err ''no such file or directory'')),
      Open = (\<lambda>path.
        if path = ''/tmp/t/file1.txt'' then Inr (''Hello'' @ nl @ ''World'' @ nl @ nl)
        else if path = ''/tmp/t/subdir/file2.txt''
          then Inr (''One'' @ nl @ ''Two'' @ [CHR 0x0D] @ nl @ ''Three'')
        else if path = ''/tmp/t/file3.log'' then Inr (''Log line'' @ nl)
        else Inl (Err ''no such file or directory'')),
      elapsed = ''1ms'',
      goroutines = (\<lambda>i. [1]),
      rangeSum = [],
      rangePrint = [1]\<rparr>"

text \<open>
  The same world when the working directory cannot be determined, and when every file
  that is opened holds one line of 65536 bytes followed by one ordinary line.
\<close>

definition no_cwd_world :: world where
  "no_cwd_world = example_world\<lparr>Getwd := Inl (Err ''getwd: no such file or directory'')\<rparr>"

definition long_line_file :: string where
  "long_line_file = replicate 65536 (CHR ''x'') @ nl @ ''package main'' @ nl"

definition long_line_world :: world where
  "long_line_world = example_world\<lparr>Open := (\<lambda>path. Inr long_line_file)\<rparr>"

section \<open>Orders chosen by the runtime\<close>

lemma pick_order_mset: "mset (pick_order ks xs) = mset xs"
proof (induction ks xs rule: pick_order.induct)
  case (1 ks xs)
  show ?case
  proof (cases "xs = []")
    case True
    then show ?thesis by (simp add: pick_order.simps)
  next
    case False
    define i where "i = (case ks of [] \<Rightarrow> 0 | k # _ \<Rightarrow> k mod length xs)"
    from False have "0 < length xs" by simp
    then have i: "i < length xs" unfolding i_def by (cases ks) simp_all
    have IH: "mset (pick_order (tl ks) (take i xs @ drop (Suc i) xs)) = mset (take i xs @ drop (Suc i) xs)"
      using "1.IH" [OF False i_def] .
    have po: "pick_order ks xs = xs ! i # pick_order (tl ks) (take i xs @ drop (Suc i) xs)"
      using False by (subst pick_order.simps) (simp add: i_def Let_def)
    have "mset xs = mset (take i xs @ xs ! i # drop (Suc i) xs)"
      using id_take_nth_drop [OF i] by simp
    then show ?thesis unfolding po using IH by simp
  qed
qed

lemma pick_order_set: "set (pick_order ks xs) = set xs"
  using pick_order_mset [of ks xs] by (metis set_mset_mset)

lemma pick_order_distinct: "distinct (map f (pick_order ks xs)) = distinct (map f xs)"
proof -
  have "mset (map f (pick_order ks xs)) = mset (map f xs)"
    by (simp add: pick_order_mset)
  then show ?thesis by (rule mset_eq_imp_distinct_iff)
qed

lemma pick_order_sum_list:
  fixes f :: "'a \<Rightarrow> int"
  shows "sum_list (map f (pick_order ks xs)) = sum_list (map f xs)"
proof -
  have "mset (map f (pick_order ks xs)) = mset (map f xs)"
    by (simp add: pick_order_mset)
  then show ?thesis by (metis sum_mset_sum_list)
qed

lemma pick_order_complete: "mset ys = mset xs \<Longrightarrow> \<exists>ks. pick_order ks xs = ys"
proof (induction ys arbitrary: xs)
  case Nil
  then have "xs = []" by simp
  then show ?case by (simp add: pick_order.simps)
next
  case (Cons y ys)
  then have "y \<in> set xs" by (metis list.set_intros(1) set_mset_mset)
  then obtain i where i: "i < length xs" and y: "xs ! i = y"
    by (auto simp: in_set_conv_nth)
  let ?xs' = "take i xs @ drop (Suc i) xs"
  have "mset xs = mset ?xs' + {#y#}"
    using id_take_nth_drop [OF i] y by (metis mset.simps(2) mset_append union_mset_add_mset_right add.right_neutral union_commute add_mset_add_single)
  with Cons.prems have "mset ys = mset ?xs'" by simp
  from Cons.IH [OF this] obtain ks where ks: "pick_order ks ?xs' = ys" ..
  from i have ne: "xs \<noteq> []" by auto
  have "pick_order (i # ks) xs = y # ys"
    using ne i y ks by (subst pick_order.simps) (simp add: Let_def)
  then show ?case ..
qed

lemma fold_add_sum_list:
  fixes f :: "'a \<Rightarrow> int"
  shows "fold (\<lambda>x t. t + f x) xs t = t + sum_list (map f xs)"
  by (induction xs arbitrary: t) simp_all

lemma atomic_adds_sum: "atomic_adds w fs t = t + sum_list (map (countLines w) fs)"
  unfolding atomic_adds_def by (rule fold_add_sum_list)

lemma atomic_adds_any_order:
  "atomic_adds w (pick_order ks fs) 0 = sum_list (map (countLines w) fs)"
  by (simp add: atomic_adds_sum pick_order_sum_list)

lemma atomic_adds_permutation:
  "mset finished = mset fs \<Longrightarrow> atomic_adds w finished 0 = sum_list (map (countLines w) fs)"
proof -
  assume "mset finished = mset fs"
  then have "mset (map (countLines w) finished) = mset (map (countLines w) fs)" by simp
  then have "sum_list (map (countLines w) finished) = sum_list (map (countLines w) fs)"
    by (metis sum_mset_sum_list)
  then show ?thesis by (simp add: atomic_adds_sum)
qed

lemma sum_results_sum_list: "sum_results visited = sum_list (map snd visited)"
  unfolding sum_results_def using fold_add_sum_list [of snd visited 0] by simp

section \<open>The loop of countLocs\<close>

lemma spawned_filter:
  "spawned w root matches = filter (regular_file w) (map (Join w root) matches)"
  by (induction matches) (auto simp: regular_file_def Let_def split: sum.splits)

lemma countLocs_loop_step_ok:
  "Glob w root p = Inr matches \<Longrightarrow>
   countLocs_loop w root i (p # ps) st =
   countLocs_loop w root (Suc i) ps (st\<lparr>results := AList.update p (pattern_total w root p) (results st)\<rparr>)"
  by (simp add: atomic_adds_any_order spawned_filter pattern_total_def regular_paths_def)

lemma countLocs_loop_step_fail:
  "Glob w root p = Inl err \<Longrightarrow>
   countLocs_loop w root i (p # ps) st =
   countLocs_loop w root (Suc i) ps
     (st\<lparr>errors := errors st @ [''Error processing pattern '' @ p @ '': '' @ msg err @ nl]\<rparr>)"
  by simp

lemma countLocs_loop_map_of:
  "map_of (results (countLocs_loop w root i ps st)) q =
     (if q \<in> set ps \<and> \<not> glob_fails w root q then Some (pattern_total w root q)
      else map_of (results st) q)"
proof (induction ps arbitrary: i st)
  case Nil
  then show ?case by simp
next
  case (Cons p ps)
  show ?case
  proof (cases "Glob w root p")
    case (Inl err)
    then show ?thesis
      unfolding countLocs_loop_step_fail [OF Inl] Cons.IH
      by (auto simp: glob_fails_def)
  next
    case (Inr matches)
    then show ?thesis
      unfolding countLocs_loop_step_ok [OF Inr] Cons.IH
      by (auto simp: glob_fails_def update_conv')
  qed
qed

lemma countLocs_loop_distinct:
  "distinct (map fst (results st)) \<Longrightarrow>
   distinct (map fst (results (countLocs_loop w root i ps st)))"
proof (induction ps arbitrary: i st)
  case Nil
  then show ?case by simp
next
  case (Cons p ps)
  show ?case
  proof (cases "Glob w root p")
    case (Inl err)
    show ?thesis
      unfolding countLocs_loop_step_fail [OF Inl]
      by (rule Cons.IH) (use Cons.prems in simp)
  next
    case (Inr matches)
    show ?thesis
      unfolding countLocs_loop_step_ok [OF Inr]
      by (rule Cons.IH) (use Cons.prems in \<open>simp add: distinct_update\<close>)
  qed
qed

lemma countLocs_loop_results_cong:
  "results st = results st' \<Longrightarrow>
   results (countLocs_loop w root i ps st) = results (countLocs_loop w root j ps st')"
proof (induction ps arbitrary: i j st st')
  case Nil
  then show ?case by simp
next
  case (Cons p ps)
  show ?case
  proof (cases "Glob w root p")
    case (Inl err)
    show ?thesis
      unfolding countLocs_loop_step_fail [OF Inl]
      by (rule Cons.IH) (use Cons.prems in simp)
  next
    case (Inr matches)
    show ?thesis
      unfolding countLocs_loop_step_ok [OF Inr]
      by (rule Cons.IH) (use Cons.prems in simp)
  qed
qed

lemma countLocs_loop_errors:
  "errors (countLocs_loop w root i ps st) =
     errors st @
     concat (map (\<lambda>p. case Glob w root p of
                        Inl err \<Rightarrow> [''Error processing pattern '' @ p @ '': '' @ msg err @ nl]
                      | Inr matches \<Rightarrow> []) ps)"
proof (induction ps arbitrary: i st)
  case Nil
  then show ?case by simp
next
  case (Cons p ps)
  show ?case
  proof (cases "Glob w root p")
    case (Inl err)
    show ?thesis
      unfolding countLocs_loop_step_fail [OF Inl] Cons.IH by (simp add: Inl)
  next
    case (Inr matches)
    show ?thesis
      unfolding countLocs_loop_step_ok [OF Inr] Cons.IH by (simp add: Inr)
  qed
qed

lemma countLocs_loop_removeAll:
  assumes "Glob w root p = Inl err"
  shows "results (countLocs_loop w root i ps st) =
         results (countLocs_loop w root j (removeAll p ps) st)"
proof (induction ps arbitrary: i j st)
  case Nil
  then show ?case by simp
next
  case (Cons q ps)
  show ?case
  proof (cases "q = p")
    case True
    have "results (countLocs_loop w root i (q # ps) st) = results (countLocs_loop w root (Suc i) ps st)"
      unfolding True countLocs_loop_step_fail [OF assms]
      by (rule countLocs_loop_results_cong) simp
    also have "\<dots> = results (countLocs_loop w root j (removeAll p ps) st)"
      by (rule Cons.IH)
    finally show ?thesis using True by simp
  next
    case False
    then have r: "removeAll p (q # ps) = q # removeAll p ps" by simp
    show ?thesis
    proof (cases "Glob w root q")
      case (Inl e)
      show ?thesis
        unfolding r countLocs_loop_step_fail [OF Inl] by (rule Cons.IH)
    next
      case (Inr matches)
      show ?thesis
        unfolding r countLocs_loop_step_ok [OF Inr] by (rule Cons.IH)
    qed
  qed
qed

lemma countLocs_errors_member:
  assumes "p \<in> set ps" and "Glob w root p = Inl err"
  shows "''Error processing pattern '' @ p @ '': '' @ msg err @ nl \<in> set (errors (countLocs w root ps))"
  unfolding countLocs_def countLocs_loop_errors
  using assms by (force simp: image_iff)

lemma countLocs_results_set:
  "set (results (countLocs w root ps)) =
     {(p, pattern_total w root p) | p. p \<in> set ps \<and> \<not> glob_fails w root p}"
proof -
  let ?al = "results (countLocs w root ps)"
  have d: "distinct (map fst ?al)"
    unfolding countLocs_def by (rule countLocs_loop_distinct) simp
  have m: "map_of ?al q =
      (if q \<in> set ps \<and> \<not> glob_fails w root q then Some (pattern_total w root q) else None)" for q
    unfolding countLocs_def countLocs_loop_map_of by simp
  have "(q, c) \<in> set ?al \<longleftrightarrow> q \<in> set ps \<and> \<not> glob_fails w root q \<and> c = pattern_total w root q"
    for q c
    using map_of_eq_Some_iff [OF d, of q c] m [of q] by (auto split: if_splits)
  then show ?thesis by auto
qed

lemma countLocs_results_distinct: "distinct (map fst (results (countLocs w root ps)))"
  unfolding countLocs_def by (rule countLocs_loop_distinct) simp

lemma countLocs_results_keys:
  "fst ` set (results (countLocs w root ps)) = {p \<in> set ps. \<not> glob_fails w root p}"
  unfolding countLocs_results_set by force

lemma countLocs_results_sum:
  "sum_list (map snd (results (countLocs w root ps))) =
     (\<Sum>p\<in>{p \<in> set ps. \<not> glob_fails w root p}. pattern_total w root p)"
proof -
  let ?al = "results (countLocs w root ps)"
  have d: "distinct (map fst ?al)" by (rule countLocs_results_distinct)
  then have d': "distinct ?al" and inj: "inj_on fst (set ?al)"
    by (simp_all add: distinct_map)
  have "sum_list (map snd ?al) = sum snd (set ?al)"
    using d' by (rule sum_list_distinct_conv_sum_set)
  also have "\<dots> = sum (\<lambda>e. pattern_total w root (fst e)) (set ?al)"
    by (rule sum.cong) (auto simp: countLocs_results_set)
  also have "\<dots> = sum (pattern_total w root) (fst ` set ?al)"
    using inj by (simp add: sum.reindex)
  finally show ?thesis unfolding countLocs_results_keys .
qed

lemma regular_file_schedule: "regular_file (w\<lparr>goroutines := s\<rparr>) = regular_file w"
  by (simp add: fun_eq_iff regular_file_def)

lemma countLines_schedule: "countLines (w\<lparr>goroutines := s\<rparr>) = countLines w"
  by (simp add: fun_eq_iff countLines_def)

lemma regular_paths_schedule: "regular_paths (w\<lparr>goroutines := s\<rparr>) = regular_paths w"
  by (simp add: fun_eq_iff regular_paths_def regular_file_schedule split: sum.splits)

lemma world_schedule_irrelevant:
  "glob_fails (w\<lparr>goroutines := s\<rparr>) = glob_fails w"
  "pattern_total (w\<lparr>goroutines := s\<rparr>) = pattern_total w"
  by (simp_all add: fun_eq_iff glob_fails_def pattern_total_def regular_paths_schedule
      countLines_schedule)


section \<open>The two outcomes of processInput\<close>

lemma processInput_resolved:
  assumes "Abs w dir = Inr root"
  shows "processInput w dir patterns =
     \<lparr>stdout =
        (if 1 < length patterns
         then [breakdown_header, nl] @
              map breakdown_line (pick_order (rangePrint w) (results (countLocs w root patterns))) @
              [nl]
         else []) @
        [total_line (sum_list (map snd (results (countLocs w root patterns)))) (elapsed w)],
      stderr = errors (countLocs w root patterns),
      exit_code = 0\<rparr>"
  using assms
  by (simp add: processInput_def Let_def sum_results_sum_list pick_order_sum_list)

lemma processInput_unresolved:
  assumes "Abs w dir = Inl err"
  shows "processInput w dir patterns =
     \<lparr>stdout = [], stderr = [''Failed to resolve directory: '' @ msg err @ nl], exit_code = 1\<rparr>"
  using assms by (simp add: processInput_def)

lemma Abs_fails_iff:
  "Abs w dir = Inl err \<longleftrightarrow> \<not> IsAbs dir \<and> Getwd w = Inl err"
  by (auto simp: Abs_def split: sum.splits)






section \<open>White space and lines\<close>

lemma space_encodings_nonempty: "e \<in> set space_encodings \<Longrightarrow> e \<noteq> []"
  by (auto simp: space_encodings_def)

lemma space_encodings_last_CR:
  "e \<in> set space_encodings \<Longrightarrow> last e = CHR 0x0D \<Longrightarrow> e = [CHR 0x0D]"
  by (auto simp: space_encodings_def)

lemma leading_space_Nil: "leading_space [] = None"
  by (simp add: leading_space_def space_encodings_def)

lemma trailing_space_Nil: "trailing_space [] = None"
  by (simp add: trailing_space_def space_encodings_def)

lemma trimLeft_Nil: "trimLeft [] = []"
  by (simp add: trimLeft.simps leading_space_Nil)

lemma trimRight_Nil: "trimRight [] = []"
  by (simp add: trimRight.simps trailing_space_Nil)

lemma leading_space_CR: "leading_space [CHR 0x0D] = Some [CHR 0x0D]"
  by (simp add: leading_space_def space_encodings_def)

lemma leading_space_snoc_CR:
  assumes "l \<noteq> []"
  shows "leading_space (l @ [CHR 0x0D]) = leading_space l"
  unfolding leading_space_def
proof (rule find_cong [OF refl])
  fix e assume e: "e \<in> set space_encodings"
  have "e \<noteq> l @ [CHR 0x0D]"
  proof
    assume eq: "e = l @ [CHR 0x0D]"
    then have "last e = CHR 0x0D" by simp
    from space_encodings_last_CR [OF e this] eq assms show False by simp
  qed
  then show "prefix e (l @ [CHR 0x0D]) = prefix e l" by (simp add: prefix_snoc)
qed

lemma trimLeft_snoc_CR:
  "trimLeft (l @ [CHR 0x0D]) = (if trimLeft l = [] then [] else trimLeft l @ [CHR 0x0D])"
proof (induction l rule: trimLeft.induct)
  case (1 s)
  show ?case
  proof (cases "s = []")
    case True
    have "trimLeft [CHR 0x0D] = []"
      by (subst trimLeft.simps) (simp add: leading_space_CR trimLeft_Nil)
    with True show ?thesis by (simp add: trimLeft_Nil)
  next
    case False
    note ls = leading_space_snoc_CR [OF False]
    show ?thesis
    proof (cases "leading_space s")
      case None
      then have "trimLeft s = s" by (subst trimLeft.simps) simp
      moreover from None ls have "trimLeft (s @ [CHR 0x0D]) = s @ [CHR 0x0D]"
        by (subst trimLeft.simps) simp
      ultimately show ?thesis using False by simp
    next
      case (Some e)
      from leading_space_length [OF Some] have le: "length e \<le> length s" by simp
      have a: "trimLeft s = trimLeft (drop (length e) s)"
        by (subst trimLeft.simps) (simp add: Some)
      have b: "trimLeft (s @ [CHR 0x0D]) = trimLeft (drop (length e) s @ [CHR 0x0D])"
        by (subst trimLeft.simps) (simp add: Some ls le)
      show ?thesis unfolding a b by (rule "1.IH" [OF Some])
    qed
  qed
qed

lemma suffix_single_snoc: "suffix [c] (t @ [d]) \<longleftrightarrow> c = d"
  using snoc_suffix_snoc [of "[]" c t d] by simp

lemma trailing_space_snoc_CR: "trailing_space (t @ [CHR 0x0D]) = Some [CHR 0x0D]"
  by (simp add: trailing_space_def space_encodings_def suffix_single_snoc)

lemma trimRight_snoc_CR: "trimRight (t @ [CHR 0x0D]) = trimRight t"
  by (subst trimRight.simps) (simp add: trailing_space_snoc_CR)

lemma TrimSpace_snoc_CR: "TrimSpace (l @ [CHR 0x0D]) = TrimSpace l"
  by (simp add: TrimSpace_def trimLeft_snoc_CR trimRight_snoc_CR trimRight_Nil)

lemma TrimSpace_dropCR: "TrimSpace (dropCR l) = TrimSpace l"
proof (cases "l \<noteq> [] \<and> last l = CHR 0x0D")
  case True
  then have "l = butlast l @ [CHR 0x0D]" by (metis append_butlast_last_id)
  then have "TrimSpace l = TrimSpace (butlast l)" by (metis TrimSpace_snoc_CR)
  with True show ?thesis by (simp add: dropCR_def)
next
  case False
  then show ?thesis by (auto simp: dropCR_def)
qed

lemma leading_space_ordinary:
  "c \<notin> hd ` set space_encodings \<Longrightarrow> leading_space (c # s) = None"
proof -
  assume c: "c \<notin> hd ` set space_encodings"
  have "\<not> prefix e (c # s)" if e: "e \<in> set space_encodings" for e
  proof
    assume "prefix e (c # s)"
    with space_encodings_nonempty [OF e] have "hd e = c"
      by (cases e) simp_all
    with e c show False by auto
  qed
  then show ?thesis by (simp add: leading_space_def find_None_iff)
qed

lemma trailing_space_ordinary:
  "c \<notin> last ` set space_encodings \<Longrightarrow> trailing_space (s @ [c]) = None"
proof -
  assume c: "c \<notin> last ` set space_encodings"
  have "\<not> suffix e (s @ [c])" if e: "e \<in> set space_encodings" for e
  proof
    assume "suffix e (s @ [c])"
    then obtain zs where zs: "s @ [c] = zs @ e" by (auto simp: suffix_def)
    from space_encodings_nonempty [OF e] have "last (zs @ e) = last e" by simp
    with zs have "last e = c" by (metis last_snoc)
    with e c show False by auto
  qed
  then show ?thesis by (simp add: trailing_space_def find_None_iff)
qed

lemma TrimSpace_ordinary:
  assumes "s \<noteq> []" and "hd s \<notin> hd ` set space_encodings"
    and "last s \<notin> last ` set space_encodings"
  shows "TrimSpace s = s"
proof -
  from assms(1) have "s = hd s # tl s" by simp
  with leading_space_ordinary [OF assms(2), of "tl s"] have l: "leading_space s = None" by simp
  from assms(1) have "s = butlast s @ [last s]" by simp
  with trailing_space_ordinary [OF assms(3), of "butlast s"] have t: "trailing_space s = None"
    by simp
  have "trimLeft s = s" by (subst trimLeft.simps) (simp only: l option.case)
  moreover have "trimRight s = s" by (subst trimRight.simps) (simp only: t option.case)
  ultimately show ?thesis by (simp only: TrimSpace_def)
qed

lemma trimLeft_ascii_space:
  assumes "c \<in> {CHR 0x09, CHR 0x0A, CHR 0x0B, CHR 0x0C, CHR 0x0D, CHR 0x20}"
  shows "trimLeft (c # s) = trimLeft s"
proof -
  have "leading_space (c # s) = Some [c]"
    using assms by (elim insertE emptyE; simp add: leading_space_def space_encodings_def)
  then show ?thesis by (subst trimLeft.simps) simp
qed

lemma TrimSpace_Nil: "TrimSpace [] = []"
  by (simp add: TrimSpace_def trimLeft_Nil trimRight_Nil)

lemma TrimSpace_ascii_space:
  assumes "set s \<subseteq> {CHR 0x09, CHR 0x0A, CHR 0x0B, CHR 0x0C, CHR 0x0D, CHR 0x20}"
  shows "TrimSpace s = []"
proof -
  from assms have "trimLeft s = []"
    by (induction s) (simp_all add: trimLeft_Nil trimLeft_ascii_space)
  then show ?thesis by (simp add: TrimSpace_def trimRight_Nil)
qed

lemma TrimSpace_replicate_x:
  "TrimSpace (replicate (Suc n) (CHR ''x'')) = replicate (Suc n) (CHR ''x'')"
proof -
  have l: "leading_space (replicate (Suc n) (CHR ''x'')) = None"
    unfolding replicate_Suc by (rule leading_space_ordinary) (simp add: space_encodings_def)
  have "replicate (Suc n) (CHR ''x'') = replicate n (CHR ''x'') @ [CHR ''x'']"
    by (simp add: replicate_append_same)
  moreover have "trailing_space (replicate n (CHR ''x'') @ [CHR ''x'']) = None"
    by (rule trailing_space_ordinary) (simp add: space_encodings_def)
  ultimately have t: "trailing_space (replicate (Suc n) (CHR ''x'')) = None" by simp
  have "trimLeft (replicate (Suc n) (CHR ''x'')) = replicate (Suc n) (CHR ''x'')"
    by (subst trimLeft.simps) (simp only: l option.case)
  moreover have "trimRight (replicate (Suc n) (CHR ''x'')) = replicate (Suc n) (CHR ''x'')"
    by (subst trimRight.simps) (simp only: t option.case)
  ultimately show ?thesis by (simp only: TrimSpace_def)
qed

lemma TrimSpace_package_main: "TrimSpace ''package main'' = ''package main''"
  by (rule TrimSpace_ordinary; simp add: space_encodings_def)

lemma text_lines_terminated:
  "CHR 0x0A \<notin> set l \<Longrightarrow> text_lines (l @ CHR 0x0A # rest) = l # text_lines rest"
  by (induction l) auto

lemma text_lines_unterminated:
  "CHR 0x0A \<notin> set l \<Longrightarrow> l \<noteq> [] \<Longrightarrow> text_lines l = [l]"
proof (induction l)
  case Nil
  then show ?case by simp
next
  case (Cons c l)
  then show ?case by (cases "l = []") auto
qed

lemma text_lines_unfold:
  assumes "input \<noteq> []"
  shows "text_lines input =
     takeWhile (\<lambda>c. c \<noteq> CHR 0x0A) input #
     text_lines (drop (Suc (length (takeWhile (\<lambda>c. c \<noteq> CHR 0x0A) input))) input)"
proof -
  let ?line = "takeWhile (\<lambda>c. c \<noteq> CHR 0x0A) input"
  let ?tail = "dropWhile (\<lambda>c. c \<noteq> CHR 0x0A) input"
  have split: "input = ?line @ ?tail" by simp
  have nonl: "CHR 0x0A \<notin> set ?line" by (auto dest: set_takeWhileD)
  show ?thesis
  proof (cases ?tail)
    case Nil
    with split have eq: "?line = input" by (metis append_Nil2)
    from nonl have "CHR 0x0A \<notin> set input" unfolding eq .
    then have "text_lines input = [input]"
      using assms by (rule text_lines_unterminated)
    then show ?thesis unfolding eq by simp
  next
    case (Cons c rest)
    then have "c = CHR 0x0A" using hd_dropWhile [of "\<lambda>c. c \<noteq> CHR 0x0A" input] by auto
    with Cons split have eq: "input = ?line @ CHR 0x0A # rest" by simp
    have "drop (Suc (length ?line)) input = rest"
      by (subst eq) simp
    moreover have "text_lines input = ?line # text_lines rest"
      by (subst eq) (rule text_lines_terminated [OF nonl])
    ultimately show ?thesis by simp
  qed
qed

text \<open>
  Where no line reaches \<open>MaxScanTokenSize\<close> bytes, the scanning loop counts exactly the
  lines that are not blank, and a file that cannot be opened counts 0. The content of the
  repository's test \<open>TestCountLines\<close> has three such lines.
\<close>

lemma scan_loop_short_lines:
  "\<forall>l\<in>set (text_lines input). length l < MaxScanTokenSize \<Longrightarrow>
   scan_loop input n = n + int (nonblank_lines input)"
proof (induction input n rule: scan_loop.induct)
  case (1 input n)
  show ?case
  proof (cases "input = []")
    case True
    then show ?thesis
      by (subst scan_loop.simps) (simp add: Scan_def nonblank_lines_def)
  next
    case False
    define line where "line = takeWhile (\<lambda>c. c \<noteq> CHR 0x0A) input"
    define rest where "rest = drop (Suc (length line)) input"
    have tl: "text_lines input = line # text_lines rest"
      unfolding line_def rest_def by (rule text_lines_unfold [OF False])
    with "1.prems" have short: "length line < MaxScanTokenSize"
      and rest_short: "\<forall>l\<in>set (text_lines rest). length l < MaxScanTokenSize"
      by simp_all
    have sc: "Scan input = Some (dropCR line, rest)"
      using False short by (simp add: Scan_def Let_def line_def rest_def)
    have "scan_loop input n =
        scan_loop rest (if TrimSpace (dropCR line) \<noteq> [] then n + 1 else n)"
      by (subst scan_loop.simps) (simp add: sc)
    also have "\<dots> = (if TrimSpace (dropCR line) \<noteq> [] then n + 1 else n) + int (nonblank_lines rest)"
      by (rule "1.IH" [OF sc refl rest_short])
    also have "\<dots> = n + int (nonblank_lines input)"
      by (simp add: nonblank_lines_def tl TrimSpace_dropCR)
    finally show ?thesis .
  qed
qed

lemma countLines_short_lines:
  assumes "Open w filePath = Inr content"
    and "\<forall>l\<in>set (text_lines content). length l < MaxScanTokenSize"
  shows "countLines w filePath = int (nonblank_lines content)"
  using assms(1) scan_loop_short_lines [OF assms(2), of 0] by (simp add: countLines_def)

lemma countLines_unopened: "Open w filePath = Inl err \<Longrightarrow> countLines w filePath = 0"
  by (simp add: countLines_def)

lemma test_content_nonblank:
  "nonblank_lines
     (''Line one'' @ nl @ nl @ ''   '' @ nl @ ''Line two'' @ nl @ ''Line three'' @ nl) = 3"
proof -
  have "text_lines
      (''Line one'' @ nl @ nl @ ''   '' @ nl @ ''Line two'' @ nl @ ''Line three'' @ nl) =
      [''Line one'', [], ''   '', ''Line two'', ''Line three'']"
    by simp
  moreover have "TrimSpace ''Line one'' = ''Line one''" "TrimSpace ''Line two'' = ''Line two''"
    "TrimSpace ''Line three'' = ''Line three''"
    by (rule TrimSpace_ordinary; simp add: space_encodings_def)+
  moreover have "TrimSpace ''   '' = []"
    by (rule TrimSpace_ascii_space) simp
  ultimately show ?thesis by (simp add: nonblank_lines_def TrimSpace_Nil)
qed

text \<open>
  A line of \<open>MaxScanTokenSize\<close> bytes stops the scanner: nothing is counted from there on.
\<close>

lemma Scan_long_line: "Scan long_line_file = None"
proof -
  have "takeWhile (\<lambda>c. c \<noteq> CHR 0x0A) long_line_file = replicate 65536 (CHR ''x'')"
    unfolding long_line_file_def by (subst takeWhile_append2) auto
  moreover have "long_line_file \<noteq> []" by (simp add: long_line_file_def)
  ultimately show ?thesis by (simp add: Scan_def MaxScanTokenSize_def)
qed

lemma scan_loop_long_line: "scan_loop long_line_file 0 = 0"
  by (subst scan_loop.simps) (simp add: Scan_long_line)

lemma nonblank_lines_long_line: "nonblank_lines long_line_file = 2"
proof -
  have "text_lines long_line_file = [replicate 65536 (CHR ''x''), ''package main'']"
    unfolding long_line_file_def
    by (simp add: text_lines_terminated [of _ "[]", simplified] text_lines_terminated)
  moreover have "TrimSpace (replicate 65536 (CHR ''x'')) \<noteq> []"
    using TrimSpace_replicate_x [of 65535] by simp
  ultimately show ?thesis by (simp add: nonblank_lines_def TrimSpace_package_main)
qed

section \<open>The example run\<close>

lemma example_Open:
  "Open example_world ''/tmp/t/file1.txt'' = Inr (''Hello'' @ nl @ ''World'' @ nl @ nl)"
  "Open example_world ''/tmp/t/subdir/file2.txt'' =
     Inr (''One'' @ nl @ ''Two'' @ [CHR 0x0D] @ nl @ ''Three'')"
  "Open example_world ''/tmp/t/file3.log'' = Inr (''Log line'' @ nl)"
  by (simp_all add: example_world_def)

lemma example_nonblank_file1: "nonblank_lines (''Hello'' @ nl @ ''World'' @ nl @ nl) = 2"
proof -
  have "text_lines (''Hello'' @ nl @ ''World'' @ nl @ nl) = [''Hello'', ''World'', []]"
    by simp
  moreover have "TrimSpace ''Hello'' = ''Hello''" "TrimSpace ''World'' = ''World''"
    by (rule TrimSpace_ordinary; simp add: space_encodings_def)+
  ultimately show ?thesis by (simp add: nonblank_lines_def TrimSpace_Nil)
qed

lemma example_nonblank_file2:
  "nonblank_lines (''One'' @ nl @ ''Two'' @ [CHR 0x0D] @ nl @ ''Three'') = 3"
proof -
  have "text_lines (''One'' @ nl @ ''Two'' @ [CHR 0x0D] @ nl @ ''Three'') =
      [''One'', ''Two'' @ [CHR 0x0D], ''Three'']"
    by simp
  moreover have "TrimSpace ''One'' = ''One''" "TrimSpace ''Two'' = ''Two''"
    "TrimSpace ''Three'' = ''Three''"
    by (rule TrimSpace_ordinary; simp add: space_encodings_def)+
  moreover have "TrimSpace (''Two'' @ [CHR 0x0D]) = TrimSpace ''Two''"
    by (rule TrimSpace_snoc_CR)
  ultimately show ?thesis by (simp add: nonblank_lines_def)
qed

lemma example_nonblank_file3: "nonblank_lines (''Log line'' @ nl) = 1"
proof -
  have "text_lines (''Log line'' @ nl) = [''Log line'']"
    by simp
  moreover have "TrimSpace ''Log line'' = ''Log line''"
    by (rule TrimSpace_ordinary; simp add: space_encodings_def)
  ultimately show ?thesis by (simp add: nonblank_lines_def)
qed

lemma example_countLines:
  "countLines example_world ''/tmp/t/file1.txt'' = 2"
  "countLines example_world ''/tmp/t/subdir/file2.txt'' = 3"
  "countLines example_world ''/tmp/t/file3.log'' = 1"
proof -
  show "countLines example_world ''/tmp/t/file1.txt'' = 2"
    by (subst countLines_short_lines [OF example_Open(1)])
      (simp_all add: MaxScanTokenSize_def example_nonblank_file1 [simplified])
  show "countLines example_world ''/tmp/t/subdir/file2.txt'' = 3"
    by (subst countLines_short_lines [OF example_Open(2)])
      (simp_all add: MaxScanTokenSize_def example_nonblank_file2 [simplified])
  show "countLines example_world ''/tmp/t/file3.log'' = 1"
    by (subst countLines_short_lines [OF example_Open(3)])
      (simp_all add: MaxScanTokenSize_def example_nonblank_file3 [simplified])
qed

lemma example_Abs: "Abs example_world ''/tmp/t'' = Inr ''/tmp/t''"
  by (simp add: Abs_def IsAbs_def example_world_def)

lemma example_Glob_txt:
  "Glob example_world ''/tmp/t'' ''**/*.txt'' = Inr [''file1.txt'', ''subdir/file2.txt'', ''gone.txt'']"
  by (simp add: example_world_def)

lemma example_Glob_all:
  "Glob example_world ''/tmp/t'' ''**'' =
     Inr [''file1.txt'', ''file3.log'', ''subdir'', ''subdir/file2.txt'']"
  by (simp add: example_world_def)

lemma example_Glob_bad:
  "Glob example_world ''/tmp/t'' ''['' = Inl (Err ''syntax error in pattern'')"
  by (simp add: example_world_def)

lemma example_Join: "Join example_world a b = a @ ''/'' @ b"
  by (simp add: example_world_def)

lemma example_regular_file:
  "regular_file example_world ''/tmp/t/file1.txt''"
  "regular_file example_world ''/tmp/t/subdir/file2.txt''"
  "regular_file example_world ''/tmp/t/file3.log''"
  "\<not> regular_file example_world ''/tmp/t/subdir''"
  "\<not> regular_file example_world ''/tmp/t/gone.txt''"
  by (simp_all add: regular_file_def example_world_def)

lemma example_regular_paths:
  "regular_paths example_world ''/tmp/t'' ''**/*.txt'' =
     [''/tmp/t/file1.txt'', ''/tmp/t/subdir/file2.txt'']"
  "regular_paths example_world ''/tmp/t'' ''**'' =
     [''/tmp/t/file1.txt'', ''/tmp/t/file3.log'', ''/tmp/t/subdir/file2.txt'']"
  using example_regular_file
  by (simp_all add: regular_paths_def example_Glob_txt example_Glob_all example_Join)

lemma example_pattern_total:
  "pattern_total example_world ''/tmp/t'' ''**/*.txt'' = 5"
  "pattern_total example_world ''/tmp/t'' ''**'' = 6"
  by (simp_all add: pattern_total_def example_regular_paths example_countLines)

lemma example_results:
  "results (countLocs example_world ''/tmp/t'' [''**/*.txt'', ''['', ''**'']) =
     [(''**/*.txt'', 5), (''**'', 6)]"
  unfolding countLocs_def countLocs_loop_step_ok [OF example_Glob_txt]
    countLocs_loop_step_ok [OF example_Glob_all] countLocs_loop_step_fail [OF example_Glob_bad]
    example_pattern_total
  by simp


lemma example_errors:
  "errors (countLocs example_world ''/tmp/t'' [''**/*.txt'', ''['', ''**'']) =
     [''Error processing pattern [: syntax error in pattern'' @ nl]"
  by (simp add: countLocs_def countLocs_loop_errors example_Glob_txt example_Glob_all
      example_Glob_bad)

lemma digits_small: "n < 10 \<Longrightarrow> digits n = [digit n]"
  by (subst digits.simps) simp

lemma example_fmt_d:
  "fmt_d 0 = ''0''" "fmt_d 5 = ''5''" "fmt_d 6 = ''6''" "fmt_d 11 = ''11''"
proof -
  show "fmt_d 0 = ''0''" "fmt_d 5 = ''5''" "fmt_d 6 = ''6''"
    by (simp_all add: fmt_d_def digits_small digit_def)
  have "digits 11 = digits 1 @ [digit 1]"
    by (subst digits.simps) simp
  then show "fmt_d 11 = ''11''"
    by (simp add: fmt_d_def digits_small digit_def)
qed

lemma example_pick_order:
  "pick_order [1] [(''**/*.txt'', 5::int), (''**'', 6)] = [(''**'', 6), (''**/*.txt'', 5)]"
proof -
  have "pick_order [1] [(''**/*.txt'', 5::int), (''**'', 6)] =
      (''**'', 6) # pick_order [] [(''**/*.txt'', 5)]"
    by (subst pick_order.simps) simp
  also have "pick_order [] [(''**/*.txt'', 5::int)] = [(''**/*.txt'', 5)]"
    by (subst pick_order.simps) (simp add: pick_order.simps [of _ "[]"])
  finally show ?thesis .
qed

lemma example_run:
  "processInput example_world ''/tmp/t'' [''**/*.txt'', ''['', ''**''] =
     \<lparr>stdout =
        [''Breakdown of Lines of Code by Glob:'' @ nl, nl,
         ''-  **: 6'' @ nl, ''-  **/*.txt: 5'' @ nl, nl,
         ''Total:'' @ tab @ ''11 lines of code'' @ nl @ nl @ ''Elapsed time: 1ms'' @ nl],
      stderr = [''Error processing pattern [: syntax error in pattern'' @ nl],
      exit_code = 0\<rparr>"
proof -
  have rp: "rangePrint example_world = [1]" and el: "elapsed example_world = ''1ms''"
    by (simp_all add: example_world_def)
  show ?thesis
    unfolding processInput_resolved [OF example_Abs] example_results example_errors rp el
      example_pick_order
    by (simp add: example_fmt_d breakdown_header_def breakdown_line_def total_line_def)
qed

lemma no_cwd_Abs: "Abs no_cwd_world ''src'' = Inl (Err ''getwd: no such file or directory'')"
  by (simp add: Abs_def IsAbs_def no_cwd_world_def)

lemma example_Abs_missing: "Abs example_world ''/nonexistent'' = Inr ''/nonexistent''"
  by (simp add: Abs_def IsAbs_def example_world_def)

lemma example_Glob_missing: "Glob example_world ''/nonexistent'' ''**/*.txt'' = Inr []"
  by (simp add: example_world_def)

section \<open>The claims\<close>

subsection \<open>C1: the breakdown section\<close>

text \<open>
  C1 says that with more than one pattern the breakdown lists exactly the supplied
  patterns, in the order given, each with its count. The example run refutes it: of the
  three patterns \<open>**/*.txt\<close>, \<open>[\<close>, \<open>**\<close> the rejected one has no line, and the map
  iteration of this run prints the line of \<open>**\<close> before that of \<open>**/*.txt\<close>.
\<close>

theorem breakdown_lists_supplied_patterns_counterexample:
  "stdout (processInput example_world ''/tmp/t'' [''**/*.txt'', ''['', ''**'']) =
     [''Breakdown of Lines of Code by Glob:'' @ nl, nl,
      ''-  **: 6'' @ nl, ''-  **/*.txt: 5'' @ nl, nl,
      ''Total:'' @ tab @ ''11 lines of code'' @ nl @ nl @ ''Elapsed time: 1ms'' @ nl]"
  by (simp add: example_run)

text \<open>
  C1 as amended: when the directory resolves and more than one pattern is supplied, the
  output is the header line, an empty line, one line \<open>-  <pattern>: <count>\<close> for each
  distinct supplied pattern whose expansion succeeded, with that pattern's total, an empty
  line and the total line. Nothing is said about the order of the pattern lines.
\<close>

theorem breakdown_lists_successful_patterns:
  assumes "Abs w dir = Inr root" and "1 < length patterns"
  shows "\<exists>visited.
           stdout (processInput w dir patterns) =
             [''Breakdown of Lines of Code by Glob:'' @ nl, nl] @
             map (\<lambda>e. ''-  '' @ fst e @ '': '' @ fmt_d (snd e) @ nl) visited @
             [nl, total_line (sum_list (map snd visited)) (elapsed w)] \<and>
           distinct (map fst visited) \<and>
           set visited =
             {(p, pattern_total w root p) | p. p \<in> set patterns \<and> \<not> glob_fails w root p}"
proof -
  let ?visited = "pick_order (rangePrint w) (results (countLocs w root patterns))"
  have "stdout (processInput w dir patterns) =
             [''Breakdown of Lines of Code by Glob:'' @ nl, nl] @
             map (\<lambda>e. ''-  '' @ fst e @ '': '' @ fmt_d (snd e) @ nl) ?visited @
             [nl, total_line (sum_list (map snd ?visited)) (elapsed w)]"
    unfolding processInput_resolved [OF assms(1)] pick_order_sum_list
    using assms(2) by (simp add: breakdown_header_def breakdown_line_def [abs_def])
  moreover have "distinct (map fst ?visited)"
    unfolding pick_order_distinct by (rule countLocs_results_distinct)
  moreover have "set ?visited =
      {(p, pattern_total w root p) | p. p \<in> set patterns \<and> \<not> glob_fails w root p}"
    unfolding pick_order_set by (rule countLocs_results_set)
  ultimately show ?thesis by blast
qed

text \<open>
  C1, witness of the amended claim: the example run with three patterns.
\<close>

theorem breakdown_lists_successful_patterns_witness:
  "Abs example_world ''/tmp/t'' = Inr ''/tmp/t'' \<and>
   1 < length [''**/*.txt'', ''['', ''**''] \<and>
   (\<exists>visited.
      stdout (processInput example_world ''/tmp/t'' [''**/*.txt'', ''['', ''**'']) =
        [''Breakdown of Lines of Code by Glob:'' @ nl, nl] @
        map (\<lambda>e. ''-  '' @ fst e @ '': '' @ fmt_d (snd e) @ nl) visited @
        [nl, total_line (sum_list (map snd visited)) (elapsed example_world)] \<and>
      distinct (map fst visited) \<and>
      set visited =
        {(p, pattern_total example_world ''/tmp/t'' p) | p.
           p \<in> set [''**/*.txt'', ''['', ''**''] \<and> \<not> glob_fails example_world ''/tmp/t'' p})"
proof -
  have l: "1 < length [''**/*.txt'', ''['', ''**'']" by simp
  from breakdown_lists_successful_patterns [OF example_Abs l] example_Abs l
  show ?thesis by blast
qed

subsection \<open>C2: a directory that cannot be resolved\<close>

text \<open>
  C2 says that a directory that cannot be resolved to an absolute path, a directory that
  does not exist included, aborts the run with a message on standard error, exit status 1
  and no report. The directory \<open>/nonexistent\<close> of the example world does not exist, and
  the run reports a total of 0 with exit status 0: \<open>filepath.Abs\<close> does not look at the
  file system, and the matcher finds nothing under a root that is not there.
\<close>

theorem missing_directory_counterexample:
  "Stat example_world ''/nonexistent'' = Inl (Err ''no such file or directory'') \<and>
   processInput example_world ''/nonexistent'' [''**/*.txt''] =
     \<lparr>stdout = [''Total:'' @ tab @ ''0 lines of code'' @ nl @ nl @ ''Elapsed time: 1ms'' @ nl],
      stderr = [],
      exit_code = 0\<rparr>"
proof -
  have st: "Stat example_world ''/nonexistent'' = Inl (Err ''no such file or directory'')"
    and el: "elapsed example_world = ''1ms''"
    by (simp_all add: example_world_def)
  have r: "countLocs example_world ''/nonexistent'' [''**/*.txt''] =
      \<lparr>results = [(''**/*.txt'', 0)], errors = []\<rparr>"
    unfolding countLocs_def countLocs_loop_step_ok [OF example_Glob_missing]
    by (simp add: pattern_total_def regular_paths_def example_Glob_missing)
  show ?thesis
    unfolding processInput_resolved [OF example_Abs_missing] r el
    by (simp add: st total_line_def example_fmt_d)
qed

text \<open>
  C2 as amended: when \<open>filepath.Abs\<close> fails for the directory argument, which it does
  exactly for a relative path while the working directory cannot be determined, the run
  prints \<open>Failed to resolve directory: <error>\<close> to standard error, nothing to standard
  output, and exits with status 1.
\<close>

theorem unresolvable_directory_is_fatal:
  assumes "Abs w dir = Inl err"
  shows "processInput w dir patterns =
           \<lparr>stdout = [],
            stderr = [''Failed to resolve directory: '' @ msg err @ nl],
            exit_code = 1\<rparr> \<and>
         \<not> IsAbs dir \<and> Getwd w = Inl err"
  using assms processInput_unresolved [OF assms] by (simp add: Abs_fails_iff)

text \<open>
  C2, witness of the amended claim: a relative directory in a world without working
  directory.
\<close>

theorem unresolvable_directory_is_fatal_witness:
  "Abs no_cwd_world ''src'' = Inl (Err ''getwd: no such file or directory'') \<and>
   processInput no_cwd_world ''src'' [''**/*.go''] =
     \<lparr>stdout = [],
      stderr = [''Failed to resolve directory: getwd: no such file or directory'' @ nl],
      exit_code = 1\<rparr>"
  using unresolvable_directory_is_fatal [OF no_cwd_Abs, of "[''**/*.go'']"] no_cwd_Abs
  by simp

subsection \<open>C3: countLines\<close>

text \<open>
  C3 says that \<open>countLines\<close> returns, for every readable file, the number of lines that
  are not empty after trimming white space. The code stops at the first line of 65536
  bytes or more: for a file of one such line followed by the line \<open>package main\<close> it
  returns 0, while two lines of the file are not blank. (For files whose lines are all
  shorter, and for files that cannot be opened, the claim holds: see
  \<open>countLines_short_lines\<close> and \<open>countLines_unopened\<close>.)
\<close>

theorem countLines_stops_at_long_line:
  "countLines long_line_world ''/tmp/t/bundle.min.js'' = 0 \<and>
   nonblank_lines long_line_file = 2"
  by (simp add: countLines_def long_line_world_def scan_loop_long_line nonblank_lines_long_line)

subsection \<open>C4: the total of a pattern\<close>

text \<open>
  C4: for every pattern whose expansion succeeds, the total stored for it is the sum of
  \<open>countLines\<close> over the matches that are regular files, whatever the schedule of the
  goroutines; matches that are directories or whose \<open>os.Stat\<close> fails add nothing; and
  the atomic additions give this sum in every order in which the goroutines may finish.
\<close>

theorem pattern_total_any_order:
  assumes "pattern \<in> set patterns" and "Glob w root pattern = Inr matches"
  shows "map_of (results (countLocs (w\<lparr>goroutines := schedule\<rparr>) root patterns)) pattern =
           Some (\<Sum>file\<leftarrow>filter (\<lambda>file. regular_file w (Join w root file)) matches.
                   countLines w (Join w root file)) \<and>
         (\<Sum>file\<leftarrow>filter (\<lambda>file. regular_file w (Join w root file)) matches.
            countLines w (Join w root file)) =
         (\<Sum>file\<leftarrow>matches.
            case Stat w (Join w root file) of
              Inl err \<Rightarrow> 0
            | Inr isDir \<Rightarrow> if isDir then 0 else countLines w (Join w root file)) \<and>
         (\<forall>finished. mset finished = mset (spawned w root matches) \<longrightarrow>
            atomic_adds w finished 0 =
              (\<Sum>file\<leftarrow>filter (\<lambda>file. regular_file w (Join w root file)) matches.
                 countLines w (Join w root file)))"
proof (intro conjI allI impI)
  have "pattern_total w root pattern =
      (\<Sum>file\<leftarrow>filter (\<lambda>file. regular_file w (Join w root file)) matches.
         countLines w (Join w root file))"
    using assms(2) by (simp add: pattern_total_def regular_paths_def filter_map comp_def)
  moreover have "\<not> glob_fails w root pattern"
    using assms(2) by (simp add: glob_fails_def)
  ultimately show "map_of (results (countLocs (w\<lparr>goroutines := schedule\<rparr>) root patterns)) pattern =
           Some (\<Sum>file\<leftarrow>filter (\<lambda>file. regular_file w (Join w root file)) matches.
                   countLines w (Join w root file))"
    using assms(1)
    by (simp add: countLocs_def countLocs_loop_map_of world_schedule_irrelevant)
next
  show "(\<Sum>file\<leftarrow>filter (\<lambda>file. regular_file w (Join w root file)) matches.
            countLines w (Join w root file)) =
         (\<Sum>file\<leftarrow>matches.
            case Stat w (Join w root file) of
              Inl err \<Rightarrow> 0
            | Inr isDir \<Rightarrow> if isDir then 0 else countLines w (Join w root file))"
    by (induction matches) (auto simp: regular_file_def split: sum.splits)
next
  fix finished assume "mset finished = mset (spawned w root matches)"
  then have "atomic_adds w finished 0 = sum_list (map (countLines w) (spawned w root matches))"
    by (rule atomic_adds_permutation)
  also have "\<dots> =
      (\<Sum>file\<leftarrow>filter (\<lambda>file. regular_file w (Join w root file)) matches.
         countLines w (Join w root file))"
    by (simp add: spawned_filter filter_map comp_def)
  finally show "atomic_adds w finished 0 =
      (\<Sum>file\<leftarrow>filter (\<lambda>file. regular_file w (Join w root file)) matches.
         countLines w (Join w root file))" .
qed

text \<open>
  C4, witness: the pattern \<open>**\<close> of the example world under another schedule, and the
  additions in an order that is not the order of the matches.
\<close>

theorem pattern_total_any_order_witness:
  "''**'' \<in> set [''**/*.txt'', ''['', ''**''] \<and>
   Glob example_world ''/tmp/t'' ''**'' =
     Inr [''file1.txt'', ''file3.log'', ''subdir'', ''subdir/file2.txt''] \<and>
   map_of (results (countLocs (example_world\<lparr>goroutines := (\<lambda>i. [2, 0])\<rparr>) ''/tmp/t''
     [''**/*.txt'', ''['', ''**''])) ''**'' = Some 6 \<and>
   mset [''/tmp/t/subdir/file2.txt'', ''/tmp/t/file1.txt'', ''/tmp/t/file3.log''] =
     mset (spawned example_world ''/tmp/t''
       [''file1.txt'', ''file3.log'', ''subdir'', ''subdir/file2.txt'']) \<and>
   atomic_adds example_world
     [''/tmp/t/subdir/file2.txt'', ''/tmp/t/file1.txt'', ''/tmp/t/file3.log''] 0 = 6"
proof -
  have m: "''**'' \<in> set [''**/*.txt'', ''['', ''**'']" by simp
  note t = pattern_total_any_order [OF m example_Glob_all, of "\<lambda>i. [2, 0]"]
  have s: "spawned example_world ''/tmp/t''
      [''file1.txt'', ''file3.log'', ''subdir'', ''subdir/file2.txt''] =
      [''/tmp/t/file1.txt'', ''/tmp/t/file3.log'', ''/tmp/t/subdir/file2.txt'']"
    using example_regular_file by (simp add: spawned_filter example_Join)
  have p: "mset [''/tmp/t/subdir/file2.txt'', ''/tmp/t/file1.txt'', ''/tmp/t/file3.log''] =
      mset (spawned example_world ''/tmp/t''
        [''file1.txt'', ''file3.log'', ''subdir'', ''subdir/file2.txt''])"
    unfolding s by simp
  have v: "(\<Sum>file\<leftarrow>filter (\<lambda>file. regular_file example_world (Join example_world ''/tmp/t'' file))
        [''file1.txt'', ''file3.log'', ''subdir'', ''subdir/file2.txt''].
      countLines example_world (Join example_world ''/tmp/t'' file)) = 6"
    using example_regular_file by (simp add: example_Join example_countLines)
  from t have a: "map_of (results (countLocs (example_world\<lparr>goroutines := (\<lambda>i. [2, 0])\<rparr>)
      ''/tmp/t'' [''**/*.txt'', ''['', ''**''])) ''**'' = Some 6"
    unfolding v by blast
  from t p have b: "atomic_adds example_world
      [''/tmp/t/subdir/file2.txt'', ''/tmp/t/file1.txt'', ''/tmp/t/file3.log''] 0 = 6"
    unfolding v by blast
  from m example_Glob_all a p b show ?thesis by (intro conjI)
qed

subsection \<open>C5: a pattern that fails to expand\<close>

text \<open>
  C5: when the expansion of a supplied pattern fails and the directory resolves, the line
  \<open>Error processing pattern <pattern>: <error>\<close> is written to standard error, the run goes
  on to its report and exits with status 0, the results are those of the run without that
  pattern, so the pattern has no entry among them, and the breakdown and the grand total
  are computed from the other patterns only.
\<close>

theorem failed_pattern_reported_and_skipped:
  assumes "Abs w dir = Inr root" and "p \<in> set patterns" and "Glob w root p = Inl err"
  shows "''Error processing pattern '' @ p @ '': '' @ msg err @ nl
           \<in> set (stderr (processInput w dir patterns)) \<and>
         exit_code (processInput w dir patterns) = 0 \<and>
         results (countLocs w root patterns) = results (countLocs w root (removeAll p patterns)) \<and>
         p \<notin> fst ` set (results (countLocs w root patterns)) \<and>
         stdout (processInput w dir patterns) =
           (if 1 < length patterns
            then [breakdown_header, nl] @
                 map breakdown_line
                   (pick_order (rangePrint w) (results (countLocs w root (removeAll p patterns)))) @
                 [nl]
            else []) @
           [total_line
              (\<Sum>q\<in>{q \<in> set patterns. q \<noteq> p \<and> \<not> glob_fails w root q}. pattern_total w root q)
              (elapsed w)]"
proof -
  have same: "results (countLocs w root patterns) = results (countLocs w root (removeAll p patterns))"
    unfolding countLocs_def by (rule countLocs_loop_removeAll [OF assms(3)])
  have fails: "glob_fails w root p" using assms(3) by (simp add: glob_fails_def)
  then have "{q \<in> set patterns. \<not> glob_fails w root q} =
      {q \<in> set patterns. q \<noteq> p \<and> \<not> glob_fails w root q}" by auto
  then have total: "sum_list (map snd (results (countLocs w root patterns))) =
      (\<Sum>q\<in>{q \<in> set patterns. q \<noteq> p \<and> \<not> glob_fails w root q}. pattern_total w root q)"
    by (simp add: countLocs_results_sum)
  have absent: "p \<notin> fst ` set (results (countLocs w root patterns))"
    unfolding countLocs_results_keys using fails by simp
  have out: "stdout (processInput w dir patterns) =
           (if 1 < length patterns
            then [breakdown_header, nl] @
                 map breakdown_line
                   (pick_order (rangePrint w) (results (countLocs w root (removeAll p patterns)))) @
                 [nl]
            else []) @
           [total_line
              (\<Sum>q\<in>{q \<in> set patterns. q \<noteq> p \<and> \<not> glob_fails w root q}. pattern_total w root q)
              (elapsed w)]"
    unfolding processInput_resolved [OF assms(1)] total same [symmetric] by simp
  have err: "''Error processing pattern '' @ p @ '': '' @ msg err @ nl
           \<in> set (stderr (processInput w dir patterns))"
    unfolding processInput_resolved [OF assms(1)]
    using countLocs_errors_member [OF assms(2,3)] by simp
  have ex: "exit_code (processInput w dir patterns) = 0"
    unfolding processInput_resolved [OF assms(1)] by simp
  from err ex same absent out show ?thesis by blast
qed

text \<open>
  C5, witness: the pattern \<open>[\<close> in the example run.
\<close>

theorem failed_pattern_reported_and_skipped_witness:
  "Abs example_world ''/tmp/t'' = Inr ''/tmp/t'' \<and>
   ''['' \<in> set [''**/*.txt'', ''['', ''**''] \<and>
   Glob example_world ''/tmp/t'' ''['' = Inl (Err ''syntax error in pattern'') \<and>
   ''Error processing pattern [: syntax error in pattern'' @ nl
     \<in> set (stderr (processInput example_world ''/tmp/t'' [''**/*.txt'', ''['', ''**''])) \<and>
   exit_code (processInput example_world ''/tmp/t'' [''**/*.txt'', ''['', ''**'']) = 0 \<and>
   ''['' \<notin> fst ` set (results (countLocs example_world ''/tmp/t'' [''**/*.txt'', ''['', ''**''])) \<and>
   results (countLocs example_world ''/tmp/t'' [''**/*.txt'', ''['', ''**'']) =
     results (countLocs example_world ''/tmp/t'' [''**/*.txt'', ''**''])"
proof -
  have m: "''['' \<in> set [''**/*.txt'', ''['', ''**'']" by simp
  note t = failed_pattern_reported_and_skipped [OF example_Abs m example_Glob_bad]
  from t have "''Error processing pattern '' @ ''['' @ '': '' @
      msg (Err ''syntax error in pattern'') @ nl
      \<in> set (stderr (processInput example_world ''/tmp/t'' [''**/*.txt'', ''['', ''**'']))"
    by blast
  then have a: "''Error processing pattern [: syntax error in pattern'' @ nl
      \<in> set (stderr (processInput example_world ''/tmp/t'' [''**/*.txt'', ''['', ''**'']))"
    by simp
  from t have b: "exit_code (processInput example_world ''/tmp/t'' [''**/*.txt'', ''['', ''**'']) = 0"
    by blast
  from t have c: "''['' \<notin> fst ` set (results (countLocs example_world ''/tmp/t''
      [''**/*.txt'', ''['', ''**'']))"
    by blast
  from t have "results (countLocs example_world ''/tmp/t'' [''**/*.txt'', ''['', ''**'']) =
      results (countLocs example_world ''/tmp/t'' (removeAll ''['' [''**/*.txt'', ''['', ''**'']))"
    by blast
  then have d: "results (countLocs example_world ''/tmp/t'' [''**/*.txt'', ''['', ''**'']) =
      results (countLocs example_world ''/tmp/t'' [''**/*.txt'', ''**''])"
    by simp
  from example_Abs m example_Glob_bad a b c d show ?thesis by (intro conjI)
qed

subsection \<open>C6: the grand total\<close>

text \<open>
  C6: when the directory resolves, the last thing printed is the line
  \<open>Total:<tab><totalLines> lines of code\<close>, an empty line and the line
  \<open>Elapsed time: <duration>\<close>, where \<open>totalLines\<close> is the sum of the per-pattern totals
  in the result map, that is the sum of the totals of the distinct supplied patterns whose
  expansion succeeded.
\<close>

theorem grand_total_is_sum:
  assumes "Abs w dir = Inr root"
  shows "last (stdout (processInput w dir patterns)) =
           ''Total:'' @ tab @ fmt_d (sum_list (map snd (results (countLocs w root patterns)))) @
           '' lines of code'' @ nl @ nl @ ''Elapsed time: '' @ elapsed w @ nl \<and>
         sum_list (map snd (results (countLocs w root patterns))) =
           (\<Sum>p\<in>{p \<in> set patterns. \<not> glob_fails w root p}. pattern_total w root p)"
  by (simp add: processInput_resolved [OF assms] total_line_def countLocs_results_sum)

text \<open>
  C6, witness: the example run prints a total of 11 = 5 + 6.
\<close>

theorem grand_total_is_sum_witness:
  "Abs example_world ''/tmp/t'' = Inr ''/tmp/t'' \<and>
   last (stdout (processInput example_world ''/tmp/t'' [''**/*.txt'', ''['', ''**''])) =
     ''Total:'' @ tab @ ''11 lines of code'' @ nl @ nl @ ''Elapsed time: 1ms'' @ nl \<and>
   sum_list (map snd (results (countLocs example_world ''/tmp/t'' [''**/*.txt'', ''['', ''**'']))) = 11"
proof -
  have el: "elapsed example_world = ''1ms''" by (simp add: example_world_def)
  from grand_total_is_sum [OF example_Abs, of "[''**/*.txt'', ''['', ''**'']"]
  show ?thesis
    unfolding example_results el using example_Abs by (simp add: example_fmt_d)
qed

subsection \<open>C7: when the breakdown is printed\<close>



subsection \<open>C8 and C10: the command line\<close>

text \<open>
  C8: an invocation without arguments, and one with a single argument other than
  \<open>-h\<close>, \<open>--help\<close>, \<open>-v\<close>, \<open>--version\<close>, prints the one-line usage error to standard error,
  nothing to standard output, and exits with status 1; with one of these four flags as
  the single argument the exit status is 0 and nothing goes to standard error.
  (\<open>args\<close> includes the program name, so these are the lists of length at most 2.)
\<close>

theorem main_usage_error_or_flag:
  assumes "length args \<le> 2"
  shows "if length args = 2 \<and> args ! 1 \<in> {''-h'', ''--help'', ''-v'', ''--version''}
         then exit_code (main w args) = 0 \<and> stderr (main w args) = []
         else stdout (main w args) = [] \<and>
              stderr (main w args) = [''Usage: count_locs <directory> <glob-patterns>...'' @ nl] \<and>
              exit_code (main w args) = 1"
  using assms by (auto simp: main_def usage_error_def printHelp_def printVersion_def)

theorem main_usage_error_or_flag_witness:
  "length [''count_locs''] \<le> 2 \<and>
   exit_code (main example_world [''count_locs'']) = 1 \<and>
   stderr (main example_world [''count_locs'']) =
     [''Usage: count_locs <directory> <glob-patterns>...'' @ nl] \<and>
   length [''count_locs'', ''./src''] \<le> 2 \<and>
   exit_code (main example_world [''count_locs'', ''./src'']) = 1 \<and>
   length [''count_locs'', ''--version''] \<le> 2 \<and>
   exit_code (main example_world [''count_locs'', ''--version'']) = 0 \<and>
   exit_code (main example_world [''count_locs'', ''-h'']) = 0"
  using main_usage_error_or_flag [of "[''count_locs'']" example_world]
    main_usage_error_or_flag [of "[''count_locs'', ''./src'']" example_world]
    main_usage_error_or_flag [of "[''count_locs'', ''--version'']" example_world]
    main_usage_error_or_flag [of "[''count_locs'', ''-h'']" example_world]
  by simp


subsection \<open>C9: a file matched by several patterns\<close>



end
